theory Spec2Isabelle
  imports Main "HOL-Library.Word"
begin

section \<open>Exceptions and undefined behaviour\<close>

text \<open>
  What a C++ function of the repository does instead of returning a value:
  \<^item> \<open>Subgroup_provisioning_exception\<close>: \<^verbatim>\<open>throw subgroup_provisioning_exception()\<close>;
  \<^item> \<open>Thrown_string s\<close>: \<^verbatim>\<open>throw\<close> of a \<^verbatim>\<open>std::string\<close> value \<open>s\<close>;
  \<^item> \<open>Out_of_range\<close>: \<^verbatim>\<open>std::out_of_range\<close>, thrown by \<^verbatim>\<open>std::string::substr\<close> when the
    start position is beyond the end of the string;
  \<^item> \<open>Undefined_behaviour\<close>: an operation the language leaves undefined (an unchecked
    \<^verbatim>\<open>operator[]\<close> out of range, an integer division by zero).
\<close>

datatype exn =
    Subgroup_provisioning_exception
  | Thrown_string string
  | Out_of_range
  | Undefined_behaviour

section \<open>The multicast message header (multicast_group.hpp)\<close>

text \<open>
  \<^verbatim>\<open>struct __attribute__((__packed__)) header\<close>: the declaration as a list of named,
  typed fields in declaration order. A packed struct has no padding, so a field starts
  where the previous one ends.
\<close>

datatype field_type = Uint8_t | Uint32_t | Int32_t | Uint64_t

fun sizeof_type :: "field_type \<Rightarrow> nat" where
  "sizeof_type Uint8_t = 1"
| "sizeof_type Uint32_t = 4"
| "sizeof_type Int32_t = 4"
| "sizeof_type Uint64_t = 8"

definition header :: "(string \<times> field_type) list" where
  "header =
    [(''header_size'', Uint32_t),
     (''index'', Int32_t),
     (''timestamp'', Uint64_t),
     (''num_nulls'', Uint32_t),
     (''cooked_send'', Uint8_t),
     (''resv_b1'', Uint8_t),
     (''resv_b2'', Uint8_t),
     (''resv_b3'', Uint8_t),
     (''resv_q4'', Uint64_t)]"

text \<open>Offsets of the fields of a packed struct, the first field at offset \<open>off\<close>.\<close>

fun packed_layout :: "nat \<Rightarrow> (string \<times> field_type) list \<Rightarrow> (string \<times> field_type \<times> nat) list" where
  "packed_layout off [] = []"
| "packed_layout off ((name, ty) # fields) =
     (name, ty, off) # packed_layout (off + sizeof_type ty) fields"

definition sizeof_packed :: "(string \<times> field_type) list \<Rightarrow> nat" where
  "sizeof_packed fields = sum_list (map (\<lambda>(name, ty). sizeof_type ty) fields)"

definition sizeof_header :: nat where
  "sizeof_header = sizeof_packed header"

text \<open>
  The header is ``always the first \<^verbatim>\<open>sizeof(header)\<close> bytes in the message's data
  buffer'': the payload starts at that offset.
\<close>

definition payload_offset :: nat where
  "payload_offset = sizeof_header"

section \<open>DerechoParams (multicast_group.hpp)\<close>

text \<open>The enumeration \<^verbatim>\<open>rdmc::send_algorithm\<close>, with the four values the header names.\<close>

datatype send_algorithm = BINOMIAL_SEND | CHAIN_SEND | SEQUENTIAL_SEND | TREE_SEND

record DerechoParams =
  max_msg_size :: "64 word"
  max_reply_msg_size :: "64 word"
  sst_max_msg_size :: "64 word"
  block_size :: "64 word"
  window_size :: "32 word"
  heartbeat_ms :: "32 word"
  rdmc_send_algorithm :: send_algorithm
  state_transfer_port :: "32 word"

text \<open>
  \<^verbatim>\<open>compute_max_msg_size\<close>: all arithmetic is on \<^verbatim>\<open>uint64_t\<close> and wraps. The remainder
  and the quotient by a zero \<^verbatim>\<open>block_size\<close> are undefined in C++.
\<close>

definition compute_max_msg_size :: "64 word \<Rightarrow> 64 word \<Rightarrow> bool \<Rightarrow> exn + 64 word" where
  "compute_max_msg_size max_payload_size block_sz using_rdmc =
    (let max_msg_sz = max_payload_size + of_nat sizeof_header in
     if using_rdmc then
       if block_sz = 0 then Inl Undefined_behaviour
       else if max_msg_sz mod block_sz \<noteq> 0
         then Inr ((max_msg_sz div block_sz + 1) * block_sz)
         else Inr max_msg_sz
     else Inr max_msg_sz)"

definition send_algorithm_from_string :: "string \<Rightarrow> exn + send_algorithm" where
  "send_algorithm_from_string rdmc_send_algorithm_string =
    (if rdmc_send_algorithm_string = ''binomial_send'' then Inr BINOMIAL_SEND
     else if rdmc_send_algorithm_string = ''chain_send'' then Inr CHAIN_SEND
     else if rdmc_send_algorithm_string = ''sequential_send'' then Inr SEQUENTIAL_SEND
     else if rdmc_send_algorithm_string = ''tree_send'' then Inr TREE_SEND
     else Inl (Thrown_string (''wrong value for RDMC send algorithm: ''
                 @ rdmc_send_algorithm_string @ ''. Check your config file.'')))"

text \<open>The eight-argument constructor of \<^verbatim>\<open>DerechoParams\<close>.\<close>

definition new_DerechoParams ::
  "64 word \<Rightarrow> 64 word \<Rightarrow> 64 word \<Rightarrow> 64 word \<Rightarrow> 32 word \<Rightarrow> 32 word \<Rightarrow> send_algorithm \<Rightarrow> 32 word
    \<Rightarrow> exn + DerechoParams" where
  "new_DerechoParams max_payload_size max_reply_payload_size max_smc_payload_size block_sz
      window_sz heartbeat algorithm port =
    (case compute_max_msg_size max_payload_size block_sz
            (max_payload_size > max_smc_payload_size) of
       Inl e \<Rightarrow> Inl e
     | Inr m \<Rightarrow> Inr \<lparr> max_msg_size = m,
                     max_reply_msg_size = max_reply_payload_size + of_nat sizeof_header,
                     sst_max_msg_size = max_smc_payload_size + of_nat sizeof_header,
                     block_size = block_sz,
                     window_size = window_sz,
                     heartbeat_ms = heartbeat,
                     rdmc_send_algorithm = algorithm,
                     state_transfer_port = port \<rparr>)"

section \<open>split_string (conf.cpp)\<close>

text \<open>
  \<^verbatim>\<open>str.find(delimiter, pos)\<close>: the least position \<open>i \<ge> pos\<close> at which \<open>delimiter\<close> occurs
  in \<open>str\<close>; \<open>None\<close> stands for \<^verbatim>\<open>std::string::npos\<close>.
\<close>

definition find_str :: "string \<Rightarrow> string \<Rightarrow> nat \<Rightarrow> nat option" where
  "find_str str delimiter pos =
    (case filter (\<lambda>i. take (length delimiter) (drop i str) = delimiter)
            [pos ..< Suc (length str)] of
       [] \<Rightarrow> None
     | i # _ \<Rightarrow> Some i)"

text \<open>
  \<^verbatim>\<open>str.substr(pos, count)\<close>: the \<open>count\<close> characters from position \<open>pos\<close>, fewer when the
  string ends first; \<^verbatim>\<open>str.substr(pos)\<close>: all characters from position \<open>pos\<close>.
\<close>

definition substr :: "string \<Rightarrow> nat \<Rightarrow> nat \<Rightarrow> exn + string" where
  "substr str pos count =
    (if length str < pos then Inl Out_of_range else Inr (take count (drop pos str)))"

definition substr_from :: "string \<Rightarrow> nat \<Rightarrow> exn + string" where
  "substr_from str pos =
    (if length str < pos then Inl Out_of_range else Inr (drop pos str))"

text \<open>
  The \<^verbatim>\<open>while\<close> loop of \<^verbatim>\<open>split_string\<close> and the statement after it, with the local
  variables \<open>lastpos\<close> and \<open>result\<close> as arguments. With an empty delimiter the loop does not
  end, hence the result is an option.
\<close>

partial_function (option) split_string_loop ::
  "string \<Rightarrow> string \<Rightarrow> nat \<Rightarrow> string list \<Rightarrow> (exn + string list) option" where
  "split_string_loop str delimiter lastpos result =
    (case find_str str delimiter lastpos of
       Some nextpos \<Rightarrow>
         (case substr str lastpos nextpos of
            Inl e \<Rightarrow> Some (Inl e)
          | Inr segment \<Rightarrow>
              split_string_loop str delimiter (nextpos + length delimiter)
                (result @ [segment]))
     | None \<Rightarrow>
         (case substr_from str lastpos of
            Inl e \<Rightarrow> Some (Inl e)
          | Inr segment \<Rightarrow> Some (Inr (result @ [segment]))))"

declare split_string_loop.simps [code]

definition split_string :: "string \<Rightarrow> string \<Rightarrow> (exn + string list) option" where
  "split_string str delimiter = split_string_loop str delimiter 0 []"

text \<open>Joining strings with a separator, for the statement of what a split should satisfy.\<close>

fun join_with :: "string \<Rightarrow> string list \<Rightarrow> string" where
  "join_with sep [] = []"
| "join_with sep [x] = x"
| "join_with sep (x # y # ys) = x @ sep @ join_with sep (y # ys)"

text \<open>\<open>contains s d\<close>: the string \<open>d\<close> occurs in \<open>s\<close>.\<close>

definition contains :: "string \<Rightarrow> string \<Rightarrow> bool" where
  "contains s d = (find_str s d 0 \<noteq> None)"

section \<open>The global round-robin order of a shard\<close>

text \<open>
  The comment on \<^verbatim>\<open>DerechoSST::seq_num\<close> (derecho_sst.hpp): ``Sequence numbers are
  interpreted like a row-major pair: (sender, index) becomes sender + num_members * index'',
  where the multiplier is the number \<open>k\<close> of senders of the shard.
\<close>

definition seq_of :: "nat \<Rightarrow> nat \<times> nat \<Rightarrow> nat" where
  "seq_of k = (\<lambda>(sender, index). sender + k * index)"

text \<open>
  The same comment: ``the global order is round-robin [\<dots>] with 4 senders, we expect to
  receive (0,0), (1,0), (2,0), (3,0), (0,1), (1,1), \<dots>''. The first \<open>rounds\<close> rounds of that
  order for \<open>k\<close> senders, as the list of the pairs (sender rank, index of the message among
  the messages of that sender):
\<close>

definition round_robin_order :: "nat \<Rightarrow> nat \<Rightarrow> (nat \<times> nat) list" where
  "round_robin_order k rounds =
     concat (map (\<lambda>index. map (\<lambda>sender. (sender, index)) [0 ..< k]) [0 ..< rounds])"

text \<open>
  Modelled from the spec: the delivery loop of the multicast engine is in
  multicast_group.cpp, which is not among the sources. The spec's delivery predicate
  (section 4.2, step 1) computes, for the sequence number \<open>seq\<close> of the next message to
  deliver, \<open>(sender, sender_index) = (seq mod k, seq div k)\<close>.
\<close>

definition sender_of_seq :: "nat \<Rightarrow> nat \<Rightarrow> nat \<times> nat" where
  "sender_of_seq k seq = (seq mod k, seq div k)"

section \<open>The latency test (latency_test.cpp)\<close>

datatype Mode = ORDERED | UNORDERED

type_synonym node_id_t = "32 word"

text \<open>
  Modelled from the spec: \<^verbatim>\<open>View\<close>, \<^verbatim>\<open>SubView\<close> and \<^verbatim>\<open>View::make_subview\<close> are declared in
  view.hpp, which is not among the sources. In the spec's data model a view has an
  ordered list of members (node ids), and a subview (one shard) has members, sender flags
  of the same length (1 means that the member sends) and a delivery mode. The test says of
  \<^verbatim>\<open>make_subview\<close> that a call ``without the sender information defaults to all members
  sending''. The test writes to \<^verbatim>\<open>next_unassigned_rank\<close> of the view.
\<close>

record SubView =
  mode :: Mode
  members :: "node_id_t list"
  is_sender :: "int list"

record View =
  members :: "node_id_t list"
  next_unassigned_rank :: int

type_synonym subgroup_shard_layout_t = "SubView list list"

definition make_subview :: "View \<Rightarrow> node_id_t list \<Rightarrow> Mode \<Rightarrow> int list option \<Rightarrow> SubView" where
  "make_subview view with_members m senders =
     \<lparr> mode = m,
       SubView.members = with_members,
       is_sender = (case senders of
                      None \<Rightarrow> replicate (length with_members) 1
                    | Some flags \<Rightarrow> flags) \<rparr>"

text \<open>
  Arithmetic on \<^verbatim>\<open>size_t\<close> (64 bits) and on \<^verbatim>\<open>unsigned int\<close> (32 bits), on natural numbers
  below \<open>2\<^sup>6\<^sup>4\<close> and \<open>2\<^sup>3\<^sup>2\<close>, with the wrap-around written out.
\<close>

definition size_t_minus :: "nat \<Rightarrow> nat \<Rightarrow> nat" where
  "size_t_minus a b = (a + 2 ^ 64 - b) mod 2 ^ 64"

definition uint_plus :: "nat \<Rightarrow> nat \<Rightarrow> nat" where
  "uint_plus a b = (a + b) mod 2 ^ 32"

text \<open>
  The half-senders loop
  \<^verbatim>\<open>for(uint i = 0; i <= (num_members - 1) / 2; ++i) is_sender[i] = 0;\<close>
  with the loop variable and the vector as arguments. \<^verbatim>\<open>num_members\<close> is a \<^verbatim>\<open>size_t\<close>:
  the subtraction wraps at \<open>2\<^sup>6\<^sup>4\<close>. The loop variable is an \<^verbatim>\<open>unsigned int\<close>: the increment
  wraps at \<open>2\<^sup>3\<^sup>2\<close>. The vector's \<^verbatim>\<open>operator[]\<close> is unchecked. The result is \<open>None\<close> when the
  loop does not end.
\<close>

partial_function (option) half_senders_loop ::
  "nat \<Rightarrow> nat \<Rightarrow> int list \<Rightarrow> (exn + int list) option" where
  "half_senders_loop num_members i flags =
    (if i \<le> size_t_minus num_members 1 div 2 then
       if i < length flags
       then half_senders_loop num_members (uint_plus i 1) (flags[i := 0])
       else Some (Inl Undefined_behaviour)
     else Some (Inr flags))"

declare half_senders_loop.simps [code]

text \<open>
  The single-sender loop
  \<^verbatim>\<open>for(uint i = 0; i < num_members - 1; ++i) is_sender[i] = 0;\<close>
\<close>

partial_function (option) one_sender_loop ::
  "nat \<Rightarrow> nat \<Rightarrow> int list \<Rightarrow> (exn + int list) option" where
  "one_sender_loop num_members i flags =
    (if i < size_t_minus num_members 1 then
       if i < length flags
       then one_sender_loop num_members (uint_plus i 1) (flags[i := 0])
       else Some (Inl Undefined_behaviour)
     else Some (Inr flags))"

declare one_sender_loop.simps [code]

text \<open>
  The membership function of the test, a lambda that captures \<open>num_senders_selector\<close>,
  \<open>mode\<close> (here \<open>mode'\<close>) and \<open>num_nodes\<close>. Its parameters \<open>subgroup_type\<close> and \<open>prev_view\<close> are not used by
  the body and are left out. It returns the layout together with the view, which it
  updates. \<open>None\<close>: the call does not return.
\<close>

definition membership_function ::
  "32 word \<Rightarrow> Mode \<Rightarrow> 32 word \<Rightarrow> View \<Rightarrow> (exn + subgroup_shard_layout_t \<times> View) option" where
  "membership_function num_senders_selector mode' num_nodes curr_view =
    (let subgroup_vector = replicate 1 [];
         num_members = length (View.members curr_view) in
     if num_members < unat num_nodes then Some (Inl Subgroup_provisioning_exception)
     else
       case (if num_senders_selector = 0
             then Some (Inr (make_subview curr_view (View.members curr_view) mode' None))
             else
               case (if num_senders_selector = 1
                     then half_senders_loop num_members 0 (replicate num_members 1)
                     else one_sender_loop num_members 0 (replicate num_members 1)) of
                 None \<Rightarrow> None
               | Some (Inl e) \<Rightarrow> Some (Inl e)
               | Some (Inr flags) \<Rightarrow>
                   Some (Inr (make_subview curr_view (View.members curr_view) mode'
                                (Some flags)))) of
         None \<Rightarrow> None
       | Some (Inl e) \<Rightarrow> Some (Inl e)
       | Some (Inr subview) \<Rightarrow>
           Some (Inr (subgroup_vector[0 := subgroup_vector ! 0 @ [subview]],
                      curr_view\<lparr>next_unassigned_rank := int num_members\<rparr>)))"

text \<open>
  The stability callback of the test, a mutable lambda. Its state: the captured counters
  \<open>num_delivered\<close> and \<open>time_index\<close>, and the variables \<open>end_times\<close> and \<open>done\<close> of
  \<^verbatim>\<open>main\<close>, which it captures by reference (\<open>done\<close> is \<open>is_done\<close> here).
\<close>

record callback_state =
  num_delivered :: "32 word"
  time_index :: "32 word"
  end_times :: "64 word list"
  is_done :: bool

text \<open>
  One call. Of the callback's parameters only \<open>sender_id\<close> is used; \<open>now\<close> is the value
  that \<^verbatim>\<open>get_time()\<close> returns in the call. \<open>num_senders_selector\<close>, \<open>num_nodes\<close>,
  \<open>num_messages\<close> and \<open>my_id\<close> are variables of \<^verbatim>\<open>main\<close>.
\<close>

definition stability_callback ::
  "32 word \<Rightarrow> 32 word \<Rightarrow> 32 word \<Rightarrow> node_id_t \<Rightarrow> node_id_t \<Rightarrow> 64 word
     \<Rightarrow> callback_state \<Rightarrow> exn + callback_state" where
  "stability_callback num_senders_selector num_nodes num_messages my_id sender_id now s =
    (let s1 = s\<lparr>num_delivered := num_delivered s + 1\<rparr> in
     case (if sender_id = my_id then
             if unat (time_index s1) < length (end_times s1)
             then Inr (s1\<lparr>end_times := (end_times s1)[unat (time_index s1) := now],
                          time_index := time_index s1 + 1\<rparr>)
             else Inl Undefined_behaviour
           else Inr s1) of
       Inl e \<Rightarrow> Inl e
     | Inr s2 \<Rightarrow>
         Inr (if num_senders_selector = 0 then
                if num_delivered s2 = num_messages * num_nodes
                then s2\<lparr>is_done := True\<rparr> else s2
              else if num_senders_selector = 1 then
                if num_delivered s2 = num_messages * (num_nodes div 2)
                then s2\<lparr>is_done := True\<rparr> else s2
              else
                if num_delivered s2 = num_messages
                then s2\<lparr>is_done := True\<rparr> else s2))"

text \<open>
  The state before the first delivery:
  \<^verbatim>\<open>num_delivered = 0u, time_index = 0u\<close>, \<^verbatim>\<open>end_times(num_messages)\<close>, \<^verbatim>\<open>done = false\<close>.
\<close>

definition initial_callback_state :: "32 word \<Rightarrow> callback_state" where
  "initial_callback_state num_messages =
     \<lparr> num_delivered = 0, time_index = 0,
       end_times = replicate (unat num_messages) 0, is_done = False \<rparr>"

text \<open>
  The callback called once for each delivered message, in delivery order; a delivery is
  given by the sender's id and the time of the call.
\<close>

fun deliveries ::
  "32 word \<Rightarrow> 32 word \<Rightarrow> 32 word \<Rightarrow> node_id_t \<Rightarrow> (node_id_t \<times> 64 word) list
     \<Rightarrow> callback_state \<Rightarrow> exn + callback_state" where
  "deliveries num_senders_selector num_nodes num_messages my_id [] s = Inr s"
| "deliveries num_senders_selector num_nodes num_messages my_id ((sender_id, now) # ds) s =
     (case stability_callback num_senders_selector num_nodes num_messages my_id sender_id now s of
        Inl e \<Rightarrow> Inl e
      | Inr s' \<Rightarrow> deliveries num_senders_selector num_nodes num_messages my_id ds s')"

section \<open>The view-change counters of the SST (derecho_sst.hpp)\<close>

text \<open>
  The four counters of a row of \<^verbatim>\<open>DerechoSST\<close> that track view changes, each an
  \<^verbatim>\<open>SSTField<int>\<close>, and the table: one row for each member of the view.
\<close>

record gms_row =
  num_changes :: int
  num_committed :: int
  num_acked :: int
  num_installed :: int

record DerechoSST =
  sst_members :: "node_id_t list"
  rows :: "gms_row list"

text \<open>
  The constructor of \<^verbatim>\<open>DerechoSST\<close>, for a view with the members \<open>parameters.members\<close>:
  its loop over the rows sets \<open>num_changes\<close>, \<open>num_committed\<close>, \<open>num_installed\<close> and
  \<open>num_acked\<close> of every row to 0.
\<close>

definition new_DerechoSST :: "node_id_t list \<Rightarrow> DerechoSST" where
  "new_DerechoSST view_members =
     \<lparr> sst_members = view_members,
       rows = replicate (length view_members)
                \<lparr> num_changes = 0, num_committed = 0, num_acked = 0, num_installed = 0 \<rparr> \<rparr>"

text \<open>
  Modelled from the spec: \<^verbatim>\<open>init_local_row_from_previous\<close> and
  \<^verbatim>\<open>init_local_change_proposals\<close> are declared in derecho_sst.hpp and defined in
  derecho_sst.cpp, which is not among the sources. The first ``copies \<open>num_changes\<close>,
  \<open>num_committed\<close>, and \<open>num_acked\<close>, adds \<open>num_changes_installed\<close> to the previous value
  of \<open>num_installed\<close>''; it writes the local row \<open>local\<close> of the new table from the row
  \<open>row\<close> of the table of the previous view. The second ``copies currently proposed changes
  and the various counter values associated with them to the local row from some other
  row''.
\<close>

definition init_local_row_from_previous ::
  "DerechoSST \<Rightarrow> nat \<Rightarrow> DerechoSST \<Rightarrow> nat \<Rightarrow> int \<Rightarrow> DerechoSST" where
  "init_local_row_from_previous sst local old_sst row num_changes_installed =
     sst\<lparr>rows := (rows sst)[local :=
       \<lparr> num_changes = num_changes (rows old_sst ! row),
         num_committed = num_committed (rows old_sst ! row),
         num_acked = num_acked (rows old_sst ! row),
         num_installed = num_installed (rows old_sst ! row) + num_changes_installed \<rparr>]\<rparr>"

definition init_local_change_proposals :: "DerechoSST \<Rightarrow> nat \<Rightarrow> nat \<Rightarrow> DerechoSST" where
  "init_local_change_proposals sst local other_row =
     sst\<lparr>rows := (rows sst)[local := rows sst ! other_row]\<rparr>"

text \<open>
  Modelled from the spec: the view manager, which moves the counters, is not among the
  sources. The steps are those of section 4.3 of the spec, each on the row of the member
  that takes it:
  \<^item> \<open>Propose r\<close>: the leader, owner of row \<open>r\<close>, appends a proposal to \<open>changes[]\<close> and
    advances \<open>num_changes\<close> (PROPOSED, proposal rules). The counter is a C++ \<^verbatim>\<open>int\<close>; the
    step is not taken at its largest value.
  \<^item> \<open>Acknowledge r leader\<close>: a follower copies the leader's proposals, with \<open>num_changes\<close>
    and \<open>num_committed\<close>, and acknowledges by advancing \<open>num_acked\<close> (PROPOSED). Counters
    only increase (invariant 4 of the spec), so the step is taken only when the leader's
    counters are not behind the follower's.
  \<^item> \<open>Commit r c\<close>: the leader advances \<open>num_committed\<close> to \<open>c\<close>, to cover proposals that a
    majority has acknowledged (COMMITTED); \<open>c\<close> counts proposals that have been made.
  \<^item> \<open>Copy_proposals r other\<close>: \<^verbatim>\<open>init_local_change_proposals(other)\<close> on row \<open>r\<close>.
  \<^item> \<open>Install r k new_members local\<close>: the member with row \<open>r\<close> installs the next view, with
    the members \<open>new_members\<close>, in which its row is \<open>local\<close>: a new table is constructed and
    \<^verbatim>\<open>init_local_row_from_previous\<close> seeds the local row from row \<open>r\<close> of the old table
    (INSTALLING). \<open>k\<close> is the number of changes applied by the view change, which are
    committed changes that were not yet installed.
  A step that is not enabled gives \<open>None\<close>.
\<close>

datatype gms_event =
    Propose nat
  | Acknowledge nat nat
  | Commit nat int
  | Copy_proposals nat nat
  | Install nat int "node_id_t list" nat

fun gms_step :: "gms_event \<Rightarrow> DerechoSST \<Rightarrow> DerechoSST option" where
  "gms_step (Propose r) sst =
     (if r < length (rows sst) \<and> num_changes (rows sst ! r) < 2 ^ 31 - 1
      then Some (sst\<lparr>rows := (rows sst)[r :=
                   (rows sst ! r)\<lparr>num_changes := num_changes (rows sst ! r) + 1\<rparr>]\<rparr>)
      else None)"
| "gms_step (Acknowledge r leader) sst =
     (if r < length (rows sst) \<and> leader < length (rows sst)
         \<and> num_changes (rows sst ! r) \<le> num_changes (rows sst ! leader)
         \<and> num_committed (rows sst ! r) \<le> num_committed (rows sst ! leader)
      then Some (sst\<lparr>rows := (rows sst)[r :=
                   (rows sst ! r)\<lparr>num_changes := num_changes (rows sst ! leader),
                                  num_committed := num_committed (rows sst ! leader),
                                  num_acked := num_changes (rows sst ! leader)\<rparr>]\<rparr>)
      else None)"
| "gms_step (Commit r c) sst =
     (if r < length (rows sst) \<and> num_committed (rows sst ! r) \<le> c
         \<and> c \<le> num_changes (rows sst ! r)
      then Some (sst\<lparr>rows := (rows sst)[r := (rows sst ! r)\<lparr>num_committed := c\<rparr>]\<rparr>)
      else None)"
| "gms_step (Copy_proposals r other) sst =
     (if r < length (rows sst) \<and> other < length (rows sst)
      then Some (init_local_change_proposals sst r other)
      else None)"
| "gms_step (Install r k new_members local) sst =
     (if r < length (rows sst) \<and> local < length new_members \<and> 0 \<le> k
         \<and> k \<le> num_committed (rows sst ! r) - num_installed (rows sst ! r)
      then Some (init_local_row_from_previous (new_DerechoSST new_members) local sst r k)
      else None)"

text \<open>A sequence of steps, from the first to the last.\<close>

fun gms_run :: "gms_event list \<Rightarrow> DerechoSST \<Rightarrow> DerechoSST option" where
  "gms_run [] sst = Some sst"
| "gms_run (e # es) sst =
     (case gms_step e sst of None \<Rightarrow> None | Some sst' \<Rightarrow> gms_run es sst')"

text \<open>The order of the three counters in one row.\<close>

definition counters_ordered :: "gms_row \<Rightarrow> bool" where
  "counters_ordered row \<longleftrightarrow>
     num_installed row \<le> num_committed row \<and> num_committed row \<le> num_changes row"

section \<open>The receipt and delivery counters of the SST (derecho_sst.hpp)\<close>

text \<open>
  The fields of a row of \<^verbatim>\<open>DerechoSST\<close> that track the messages of one subgroup, for a
  shard with \<open>k\<close> senders: \<open>num_received\<close> has one entry for each sender, ``the number of
  messages received from sender k''; \<open>seq_num\<close> is ``the highest sequence number that has
  been received in-order by this node''; \<open>delivered_num\<close> is ``the highest sequence number
  that has been delivered at this node''. The subgroups of a table do not share counters:
  the model has the rows of one subgroup.
\<close>

record mc_row =
  num_received :: "int list"
  seq_num :: int
  delivered_num :: int

text \<open>
  Modelled from the spec: the multicast engine that moves these counters is in
  multicast_group.cpp, which is not among the sources; the constructor of \<^verbatim>\<open>DerechoSST\<close>
  leaves their initialisation to it. Section 4.2 of the spec gives the sequence number of a
  row as \<open>min over the senders s of (num_received[s] * k + rank(s)) - 1\<close>, the largest
  sequence number up to which every message of the round-robin order has been received,
  and the global stable count as the minimum of \<open>seq_num\<close> over the members.
\<close>

definition row_seq_num :: "int list \<Rightarrow> int" where
  "row_seq_num received =
     (if received = [] then - 1
      else Min (set (map (\<lambda>s. received ! s * int (length received) + int s)
                      [0 ..< length received])) - 1)"

definition global_stable_count :: "mc_row list \<Rightarrow> int" where
  "global_stable_count table = Min (set (map seq_num table))"

text \<open>
  Before the first message, nothing is received and nothing is delivered: the sequence
  number of every row is that of an empty receipt count, \<open>-1\<close>, and the delivery loop, which
  starts at \<open>delivered_num + 1\<close>, starts at the sequence number 0.
\<close>

definition new_mc_table :: "nat \<Rightarrow> nat \<Rightarrow> mc_row list" where
  "new_mc_table num_members num_senders =
     replicate num_members
       \<lparr> num_received = replicate num_senders 0, seq_num = - 1, delivered_num = - 1 \<rparr>"

text \<open>
  Modelled from the spec: the steps of a shard in a steady view, on the row of the member
  \<open>m\<close> that takes them (section 4.2).
  \<^item> \<open>Receive m s\<close>, receive accounting: \<open>m\<close> receives the next message of sender \<open>s\<close> in
    order; \<open>num_received[s]\<close> advances and \<open>seq_num\<close> follows.
  \<^item> \<open>Deliver m\<close>, the delivery predicate: it ``fires when \<open>global_stable_count >
    delivered_num\<close>'', delivers each message from \<open>delivered_num + 1\<close> through the stable
    count and updates \<open>delivered_num\<close>.
  A step that is not enabled gives \<open>None\<close>.
\<close>

datatype mc_event = Receive nat nat | Deliver nat

fun mc_step :: "mc_event \<Rightarrow> mc_row list \<Rightarrow> mc_row list option" where
  "mc_step (Receive m s) table =
     (if m < length table \<and> s < length (num_received (table ! m))
      then let received = (num_received (table ! m))[s := num_received (table ! m) ! s + 1]
           in Some (table[m := (table ! m)\<lparr>num_received := received,
                                           seq_num := row_seq_num received\<rparr>])
      else None)"
| "mc_step (Deliver m) table =
     (if m < length table \<and> delivered_num (table ! m) < global_stable_count table
      then Some (table[m := (table ! m)\<lparr>delivered_num := global_stable_count table\<rparr>])
      else None)"

fun mc_run :: "mc_event list \<Rightarrow> mc_row list \<Rightarrow> mc_row list option" where
  "mc_run [] table = Some table"
| "mc_run (e # es) table =
     (case mc_step e table of None \<Rightarrow> None | Some table' \<Rightarrow> mc_run es table')"

text \<open>
  Modelled from the spec: the ragged trim of a view change (section 4.3, RAGGED). The cap
  for a sender is ``the max, across survivors, of \<open>num_received[g][s]\<close>'', the number of
  messages to accept from that sender, and ``each node delivers all messages up to the cap,
  regardless of whether stability was previously reached''. The messages of sender \<open>s\<close>
  up to the cap \<open>c\<close> have the indices \<open>0, \<dots>, c - 1\<close> and the sequence numbers
  \<open>s + k * index\<close>; \<open>delivered_num\<close> is the highest sequence number delivered.
  \<open>survivors\<close> are the rows of the surviving members, \<open>m\<close> the member that delivers.
\<close>

definition ragged_cap :: "mc_row list \<Rightarrow> nat list \<Rightarrow> nat \<Rightarrow> int" where
  "ragged_cap table survivors s =
     Max (set (map (\<lambda>i. num_received (table ! i) ! s) survivors))"

definition highest_delivered :: "nat \<Rightarrow> (nat \<Rightarrow> int) \<Rightarrow> int \<Rightarrow> int" where
  "highest_delivered k cap delivered =
     fold (\<lambda>s d. if 0 < cap s then max d (int s + int k * (cap s - 1)) else d)
       [0 ..< k] delivered"

definition ragged_trim :: "nat \<Rightarrow> nat list \<Rightarrow> mc_row list \<Rightarrow> mc_row list option" where
  "ragged_trim m survivors table =
     (if m < length table \<and> m \<in> set survivors \<and> (\<forall>i \<in> set survivors. i < length table)
      then Some (table[m := (table ! m)
                   \<lparr>delivered_num :=
                      highest_delivered (length (num_received (table ! m)))
                        (ragged_cap table survivors) (delivered_num (table ! m))\<rparr>])
      else None)"

section \<open>Properties of the message header\<close>

lemma sizeof_header_32: "sizeof_header = 32"
  by (simp add: sizeof_header_def sizeof_packed_def header_def)

text \<open>
  Claim C4. The multicast message header is a packed record of exactly 32 bytes whose
  fields are, in order: a 32-bit unsigned \<open>header_size\<close> at offset 0, a 32-bit signed
  \<open>index\<close> at 4, a 64-bit unsigned \<open>timestamp\<close> at 8, a 32-bit unsigned \<open>num_nulls\<close> at 16,
  the 8-bit \<open>cooked_send\<close> flag at 20, three reserved bytes at 21, 22 and 23, and a
  reserved 64-bit word at 24; the payload begins at offset 32.
\<close>

theorem header_layout:
  "packed_layout 0 header =
     [(''header_size'', Uint32_t, 0),
      (''index'', Int32_t, 4),
      (''timestamp'', Uint64_t, 8),
      (''num_nulls'', Uint32_t, 16),
      (''cooked_send'', Uint8_t, 20),
      (''resv_b1'', Uint8_t, 21),
      (''resv_b2'', Uint8_t, 22),
      (''resv_b3'', Uint8_t, 23),
      (''resv_q4'', Uint64_t, 24)]
   \<and> sizeof_header = 32
   \<and> payload_offset = 32"
  by (simp add: header_def sizeof_header_32 payload_offset_def)

section \<open>Properties of DerechoParams\<close>

subsection \<open>Rounding up to a multiple of the block size\<close>

lemma div_mult_plus_less:
  fixes B q r :: nat
  assumes "r < B"
  shows "(q * B + r) div B = q"
proof -
  have "B \<noteq> 0" using assms by simp
  then have "(q * B + r) div B = q + r div B" by (rule div_mult_self3)
  then show ?thesis using assms by simp
qed

lemma round_up_formula:
  fixes B x :: nat
  assumes "0 < B"
  shows "((x + B - 1) div B) * B = (if x mod B = 0 then x else (x div B + 1) * B)"
proof (cases "x mod B = 0")
  case True
  then obtain q where q: "x = q * B" by (auto simp: mod_eq_0_iff_dvd dvd_def mult.commute)
  have "q * B + B - 1 = q * B + (B - 1)" using assms by simp
  then have "(q * B + B - 1) div B = q"
    using div_mult_plus_less [of "B - 1" B q] assms by simp
  then show ?thesis using True q by simp
next
  case False
  define r where "r = x mod B"
  define q where "q = x div B"
  have x: "x = q * B + r" by (simp add: q_def r_def)
  have r: "0 < r" "r < B" using False assms by (simp_all add: r_def)
  have "q * B + r + B - 1 = (q + 1) * B + (r - 1)" using r by (simp add: algebra_simps)
  moreover have "((q + 1) * B + (r - 1)) div B = q + 1"
    using r by (intro div_mult_plus_less) simp
  ultimately have "(x + B - 1) div B = q + 1" using x by simp
  then show ?thesis using False by (simp add: q_def)
qed

lemma least_multiple_exact:
  fixes B x :: nat
  assumes "x mod B = 0"
  shows "(LEAST z. B dvd z \<and> x \<le> z) = x"
  using assms by (intro Least_equality) auto

lemma lt_round_up:
  fixes B x :: nat
  assumes "0 < B"
  shows "x < (x div B + 1) * B"
  using assms by (metis Suc_eq_plus1 dividend_less_div_times mult.commute mult_Suc_right)

lemma least_multiple_round_up:
  fixes B x :: nat
  assumes "0 < B" "x mod B \<noteq> 0"
  shows "(LEAST z. B dvd z \<and> x \<le> z) = (x div B + 1) * B"
proof (rule Least_equality)
  show "B dvd (x div B + 1) * B \<and> x \<le> (x div B + 1) * B"
    using lt_round_up [OF assms(1), of x] by simp
next
  fix z assume z: "B dvd z \<and> x \<le> z"
  then obtain k where k: "z = B * k" by (auto simp: dvd_def)
  have "x div B < k"
  proof (rule ccontr)
    assume "\<not> x div B < k"
    then have "k \<le> x div B" by simp
    then have "B * k \<le> B * (x div B)" by simp
    also have "\<dots> \<le> x" by simp
    finally have "z \<le> x" using k by simp
    with z have "z = x" by simp
    with k assms(2) show False by simp
  qed
  then have "x div B + 1 \<le> k" by simp
  then have "(x div B + 1) * B \<le> k * B" by (rule mult_le_mono1)
  then show "(x div B + 1) * B \<le> z" using k by (simp add: mult.commute)
qed

lemma unat_plus_header:
  fixes p :: "64 word"
  assumes "unat p + 32 < 2 ^ 64"
  shows "unat (p + of_nat sizeof_header) = unat p + 32"
  using assms by (simp add: sizeof_header_32 unat_word_ariths)

lemma compute_max_msg_size_slot:
  "compute_max_msg_size p b False = Inr (p + of_nat sizeof_header)"
  by (simp add: compute_max_msg_size_def)

lemma compute_max_msg_size_block:
  fixes p b :: "64 word"
  assumes b: "b \<noteq> 0"
    and fits: "((unat p + 32 + unat b - 1) div unat b) * unat b < 2 ^ 64"
  shows "\<exists>y. compute_max_msg_size p b True = Inr y
           \<and> unat y = (LEAST z. unat b dvd z \<and> unat p + 32 \<le> z)"
proof -
  let ?B = "unat b" and ?x = "unat p + 32"
  let ?s = "p + of_nat sizeof_header"
  have B: "0 < ?B" using b by (simp add: unat_gt_0)
  note ru = round_up_formula [OF B, of ?x]
  have x: "?x < 2 ^ 64"
  proof (cases "?x mod ?B = 0")
    case True then show ?thesis using fits ru by simp
  next
    case False
    then have "(?x div ?B + 1) * ?B < 2 ^ 64" using fits ru by simp
    then show ?thesis using lt_round_up [OF B, of ?x] by linarith
  qed
  have s: "unat ?s = ?x" using x by (rule unat_plus_header)
  have m: "unat (?s mod b) = ?x mod ?B" by (simp add: unat_mod s)
  show ?thesis
  proof (cases "?x mod ?B = 0")
    case True
    then have "?s mod b = 0" using m by (simp add: unat_eq_0)
    then have "compute_max_msg_size p b True = Inr ?s"
      using b by (simp add: compute_max_msg_size_def Let_def)
    then show ?thesis using s least_multiple_exact [OF True] by simp
  next
    case False
    then have nz: "?s mod b \<noteq> 0" using m by (metis unat_0)
    have r: "(?x div ?B + 1) * ?B < 2 ^ 64" using fits ru False by simp
    have d: "unat (?s div b) = ?x div ?B" by (simp add: unat_div s)
    have "(?x div ?B + 1) * 1 \<le> (?x div ?B + 1) * ?B"
      using B by (intro mult_le_mono2) simp
    then have "?x div ?B + 1 \<le> (?x div ?B + 1) * ?B" by (simp only: mult_1_right)
    then have q: "?x div ?B + 1 < 2 ^ 64" using r by (rule le_less_trans)
    have d1: "unat (?s div b + 1) = ?x div ?B + 1"
      using q d by (simp add: unat_word_ariths)
    have "unat ((?s div b + 1) * b) = (?x div ?B + 1) * ?B"
      using r d1 by (simp add: unat_word_ariths)
    moreover have "compute_max_msg_size p b True = Inr ((?s div b + 1) * b)"
      using b nz by (simp add: compute_max_msg_size_def Let_def)
    ultimately show ?thesis using least_multiple_round_up [OF B False] by simp
  qed
qed


text \<open>
  Claim C5, as amended. For every \<open>max_payload_size\<close> \<open>p\<close>, \<open>max_smc_payload_size\<close> \<open>m\<close>
  and \<open>block_size\<close> \<open>b > 0\<close> such that \<open>m + 32\<close> fits in 64 bits and, when \<open>p > m\<close>,
  \<open>p + 32\<close> rounded up to a multiple of \<open>b\<close> fits in 64 bits, the constructor returns
  parameters with \<open>sst_max_msg_size = m + 32\<close>, with \<open>max_msg_size = p + 32\<close> when
  \<open>p \<le> m\<close>, and otherwise with \<open>max_msg_size\<close> the least multiple of \<open>b\<close> that is at
  least \<open>p + 32\<close>.
\<close>

theorem derecho_params_sizes:
  fixes p r m b :: "64 word"
  assumes "b \<noteq> 0"
    and "unat m + 32 < 2 ^ 64"
    and "m < p \<Longrightarrow> ((unat p + 32 + unat b - 1) div unat b) * unat b < 2 ^ 64"
  shows "\<exists>ps. new_DerechoParams p r m b w h a port = Inr ps
          \<and> unat (sst_max_msg_size ps) = unat m + 32
          \<and> (p \<le> m \<longrightarrow> unat (max_msg_size ps) = unat p + 32)
          \<and> (m < p \<longrightarrow> unat (max_msg_size ps) = (LEAST z. unat b dvd z \<and> unat p + 32 \<le> z))"
proof (cases "m < p")
  case True
  from compute_max_msg_size_block [OF assms(1) assms(3) [OF True]]
  obtain y where y: "compute_max_msg_size p b True = Inr y"
    "unat y = (LEAST z. unat b dvd z \<and> unat p + 32 \<le> z)" by blast
  show ?thesis
    using True y unat_plus_header [OF assms(2)] by (simp add: new_DerechoParams_def)
next
  case False
  then have le: "p \<le> m" by simp
  then have "unat p \<le> unat m" by (simp add: word_le_nat_alt)
  then have "unat p + 32 < 2 ^ 64" using assms(2) by linarith
  then have "unat (p + of_nat sizeof_header) = unat p + 32" by (rule unat_plus_header)
  then show ?thesis
    using False le unat_plus_header [OF assms(2)]
    by (simp add: new_DerechoParams_def compute_max_msg_size_slot)
qed

theorem derecho_params_sizes_witness:
  "\<exists>ps. new_DerechoParams 10000 100 1000 4096 16 1 BINOMIAL_SEND 28366 = Inr ps
     \<and> unat (sst_max_msg_size ps) = 1032
     \<and> unat (max_msg_size ps) = (LEAST z. (4096::nat) dvd z \<and> 10032 \<le> z)"
  using derecho_params_sizes [of 4096 1000 10000 100 16 1 BINOMIAL_SEND 28366] by simp

text \<open>
  The claim as stated fails where the 64-bit arithmetic wraps: with
  \<open>p = 2\<^sup>6\<^sup>4 - 33\<close>, \<open>m = 0\<close> and \<open>b = 2\<close> the sum \<open>p + 32\<close> is \<open>2\<^sup>6\<^sup>4 - 1\<close>, odd, and rounding it
  up gives \<open>2\<^sup>6\<^sup>3 * 2 = 0\<close>: \<open>max_msg_size\<close> is 0, below \<open>p + 32\<close>.
\<close>

theorem derecho_params_sizes_counterexample:
  "new_DerechoParams 18446744073709551583 0 0 2 16 1 BINOMIAL_SEND 28366
     = Inr \<lparr> max_msg_size = 0, max_reply_msg_size = 32, sst_max_msg_size = 32,
             block_size = 2, window_size = 16, heartbeat_ms = 1,
             rdmc_send_algorithm = BINOMIAL_SEND, state_transfer_port = 28366 \<rparr>
   \<and> (0 :: 64 word) < 2
   \<and> (0 :: 64 word) < 18446744073709551583
   \<and> unat (0 :: 64 word) < unat (18446744073709551583 :: 64 word) + 32"
  by (simp add: new_DerechoParams_def compute_max_msg_size_def sizeof_header_32 Let_def)

subsection \<open>The send algorithm named in the configuration\<close>

text \<open>
  Claim C6, as amended. \<open>send_algorithm_from_string\<close> returns \<open>BINOMIAL_SEND\<close>,
  \<open>CHAIN_SEND\<close>, \<open>SEQUENTIAL_SEND\<close> and \<open>TREE_SEND\<close> for the strings \<open>binomial_send\<close>,
  \<open>chain_send\<close>, \<open>sequential_send\<close> and \<open>tree_send\<close>, it returns a value for these four
  strings only, and for every other string \<open>s\<close> it throws the string
  \<open>wrong value for RDMC send algorithm: s. Check your config file.\<close>, a bare
  \<^verbatim>\<open>std::string\<close> and not a \<^verbatim>\<open>subgroup_provisioning_exception\<close>.
\<close>

theorem send_algorithm_from_string_cases:
  "send_algorithm_from_string ''binomial_send'' = Inr BINOMIAL_SEND
   \<and> send_algorithm_from_string ''chain_send'' = Inr CHAIN_SEND
   \<and> send_algorithm_from_string ''sequential_send'' = Inr SEQUENTIAL_SEND
   \<and> send_algorithm_from_string ''tree_send'' = Inr TREE_SEND
   \<and> ((\<exists>a. send_algorithm_from_string s = Inr a)
        \<longleftrightarrow> s \<in> {''binomial_send'', ''chain_send'', ''sequential_send'', ''tree_send''})
   \<and> (s \<notin> {''binomial_send'', ''chain_send'', ''sequential_send'', ''tree_send''}
        \<longrightarrow> send_algorithm_from_string s
              = Inl (Thrown_string (''wrong value for RDMC send algorithm: '' @ s
                                     @ ''. Check your config file.'')))"
  by (simp add: send_algorithm_from_string_def)

theorem send_algorithm_from_string_cases_witness:
  "''no_such_send'' \<notin> {''binomial_send'', ''chain_send'', ''sequential_send'', ''tree_send''}
   \<and> send_algorithm_from_string ''no_such_send''
       = Inl (Thrown_string
               ''wrong value for RDMC send algorithm: no_such_send. Check your config file.'')"
  using send_algorithm_from_string_cases [of "''no_such_send''"] by simp

text \<open>
  The claim as stated (any other string signals a provisioning failure) fails: what is
  thrown for an unknown name is a string, not the provisioning exception.
\<close>

theorem send_algorithm_from_string_counterexample:
  "send_algorithm_from_string ''no_such_send''
     = Inl (Thrown_string
             ''wrong value for RDMC send algorithm: no_such_send. Check your config file.'')
   \<and> send_algorithm_from_string ''no_such_send'' \<noteq> Inl Subgroup_provisioning_exception"
  by (simp add: send_algorithm_from_string_def)

section \<open>Properties of the round-robin order\<close>

lemma length_round_robin_order: "length (round_robin_order k rounds) = k * rounds"
  by (induction rounds) (simp_all add: round_robin_order_def)

lemma round_robin_order_Suc:
  "round_robin_order k (Suc rounds)
     = round_robin_order k rounds @ map (\<lambda>sender. (sender, rounds)) [0 ..< k]"
  by (simp add: round_robin_order_def)

lemma nth_round_robin_order:
  "i < k * rounds \<Longrightarrow> round_robin_order k rounds ! i = (i mod k, i div k)"
proof (induction rounds)
  case 0
  then show ?case by simp
next
  case (Suc rounds)
  show ?case
  proof (cases "i < k * rounds")
    case True
    then show ?thesis
      using Suc.IH by (simp add: round_robin_order_Suc nth_append length_round_robin_order)
  next
    case False
    then have ge: "k * rounds \<le> i" by simp
    define j where "j = i - k * rounds"
    have i: "i = rounds * k + j" using ge by (simp add: j_def mult.commute)
    have j: "j < k" using Suc.prems ge by (simp add: j_def)
    have "i div k = rounds" using j unfolding i by simp
    moreover have "i mod k = j" using j unfolding i by simp
    moreover have "round_robin_order k (Suc rounds) ! i = (j, rounds)"
      using False j by (simp add: round_robin_order_Suc nth_append length_round_robin_order j_def)
    ultimately show ?thesis by simp
  qed
qed

text \<open>
  Claim C3. For a shard with \<open>k\<close> senders, the \<open>i\<close>-th message of the global round-robin
  order (counting from 0) comes from the sender of rank \<open>i mod k\<close> and is that sender's
  message of index \<open>i div k\<close>; the pair is the one the delivery predicate computes from the
  sequence number \<open>i\<close>, and its sequence number \<open>sender + k * index\<close> is \<open>i\<close> again.
\<close>

theorem round_robin_formula:
  "i < k * rounds \<Longrightarrow>
     round_robin_order k rounds ! i = sender_of_seq k i
     \<and> fst (round_robin_order k rounds ! i) = i mod k
     \<and> snd (round_robin_order k rounds ! i) = i div k
     \<and> fst (round_robin_order k rounds ! i) < k
     \<and> seq_of k (round_robin_order k rounds ! i) = i"
proof -
  assume i: "i < k * rounds"
  then have "0 < k" by (cases k) simp_all
  then show ?thesis
    using nth_round_robin_order [OF i] by (simp add: sender_of_seq_def seq_of_def)
qed

theorem round_robin_formula_witness:
  "(5::nat) < 4 * 2 \<and> round_robin_order 4 2 ! 5 = (1, 1) \<and> seq_of 4 (1, 1) = 5"
  using round_robin_formula [of 5 4 2] by (simp add: sender_of_seq_def seq_of_def)

section \<open>Properties of split_string\<close>

text \<open>
  Claim C10 says that \<open>split_string s d\<close> returns the segments of \<open>s\<close> between successive
  occurrences of \<open>d\<close>. The loop passes the end position \<open>nextpos\<close> to \<^verbatim>\<open>substr\<close>, whose
  second argument is a length: from the second segment on, the segment returned runs
  past the delimiter. For \<open>a,b,c\<close> split at commas the second element is \<open>b,c\<close>, which
  contains the delimiter, and joining the elements with commas gives \<open>a,b,c,c\<close>.
\<close>

theorem split_string_second_segment:
  "split_string ''a,b,c'' '','' = Some (Inr [''a'', ''b,c'', ''c''])
   \<and> contains ''b,c'' '',''
   \<and> join_with '','' [''a'', ''b,c'', ''c''] = ''a,b,c,c''"
proof -
  have "split_string ''a,b,c'' '','' = Some (Inr [''a'', ''b,c'', ''c''])"
    by code_simp
  moreover have "contains ''b,c'' '',''"
    by (simp add: contains_def find_str_def)
  ultimately show ?thesis by simp
qed

section \<open>Properties of the latency test\<close>

subsection \<open>The loops that mark the non-senders\<close>

lemma size_t_minus_one:
  fixes n :: nat
  assumes "0 < n" "n \<le> 2 ^ 32"
  shows "size_t_minus n 1 = n - 1"
proof -
  have "n + 2 ^ 64 - 1 = (n - 1) + 1 * 2 ^ 64" using assms(1) by simp
  moreover have "n - 1 < (2 :: nat) ^ 64" using assms(2) by simp
  ultimately show ?thesis unfolding size_t_minus_def by (simp only: mod_mult_self1 mod_less)
qed

lemma size_t_minus_Suc_0:
  fixes n :: nat
  assumes "0 < n" "n \<le> 2 ^ 32"
  shows "size_t_minus n (Suc 0) = n - 1"
  using size_t_minus_one [OF assms] by simp

lemma uint_plus_one:
  fixes i :: nat
  assumes "i + 1 < 2 ^ 32"
  shows "uint_plus i (Suc 0) = i + 1"
  using assms by (simp add: uint_plus_def)

lemma half_senders_loop_result:
  fixes flags :: "int list"
  assumes "0 < length flags" "length flags \<le> 2 ^ 32" "i \<le> (length flags - 1) div 2 + 1"
  shows "half_senders_loop (length flags) i flags
           = Some (Inr (map (\<lambda>j. if i \<le> j \<and> j \<le> (length flags - 1) div 2 then 0 else flags ! j)
                          [0 ..< length flags]))"
  using assms
proof (induction "(length flags - 1) div 2 + 1 - i" arbitrary: i flags)
  case 0
  then have "i = (length flags - 1) div 2 + 1" by simp
  then have stop: "\<not> i \<le> (length flags - 1) div 2" by simp
  then have "map (\<lambda>j. if i \<le> j \<and> j \<le> (length flags - 1) div 2 then 0 else flags ! j)
               [0 ..< length flags] = map (\<lambda>j. flags ! j) [0 ..< length flags]"
    by (intro map_cong) auto
  then have "map (\<lambda>j. if i \<le> j \<and> j \<le> (length flags - 1) div 2 then 0 else flags ! j)
               [0 ..< length flags] = flags"
    by (simp only: map_nth)
  then show ?case
    using 0 stop by (subst half_senders_loop.simps) (simp add: size_t_minus_Suc_0)
next
  case (Suc d)
  let ?n = "length flags" and ?b = "(length flags - 1) div 2"
  from Suc have i: "i \<le> ?b" by simp
  have "?b \<le> ?n - 1" by simp
  then have lt: "i < ?n" using i Suc.prems(1) by linarith
  have "uint_plus i (Suc 0) = i + 1" using i lt Suc.prems by (intro uint_plus_one) simp
  then have step: "half_senders_loop ?n i flags = half_senders_loop ?n (i + 1) (flags[i := 0])"
    using i lt Suc.prems by (subst half_senders_loop.simps) (simp add: size_t_minus_Suc_0)
  have "half_senders_loop (length (flags[i := 0])) (i + 1) (flags[i := 0])
          = Some (Inr (map (\<lambda>j. if i + 1 \<le> j \<and> j \<le> (length (flags[i := 0]) - 1) div 2 then 0
                                   else flags[i := 0] ! j)
                         [0 ..< length (flags[i := 0])]))"
    using Suc.hyps(2) Suc.prems i by (intro Suc.hyps(1)) simp_all
  moreover have "map (\<lambda>j. if i + 1 \<le> j \<and> j \<le> ?b then 0 else flags[i := 0] ! j) [0 ..< ?n]
                   = map (\<lambda>j. if i \<le> j \<and> j \<le> ?b then 0 else flags ! j) [0 ..< ?n]"
    using i by (intro map_cong) (auto simp: nth_list_update)
  ultimately show ?case using step by simp
qed

lemma one_sender_loop_result:
  fixes flags :: "int list"
  assumes "0 < length flags" "length flags \<le> 2 ^ 32" "i \<le> length flags - 1"
  shows "one_sender_loop (length flags) i flags
           = Some (Inr (map (\<lambda>j. if i \<le> j \<and> j < length flags - 1 then 0 else flags ! j)
                          [0 ..< length flags]))"
  using assms
proof (induction "length flags - 1 - i" arbitrary: i flags)
  case 0
  then have "i = length flags - 1" by simp
  then have stop: "\<not> i < length flags - 1" by simp
  then have "map (\<lambda>j. if i \<le> j \<and> j < length flags - 1 then 0 else flags ! j)
               [0 ..< length flags] = map (\<lambda>j. flags ! j) [0 ..< length flags]"
    by (intro map_cong) auto
  then have "map (\<lambda>j. if i \<le> j \<and> j < length flags - 1 then 0 else flags ! j)
               [0 ..< length flags] = flags"
    by (simp only: map_nth)
  then show ?case
    using 0 stop by (subst one_sender_loop.simps) (simp add: size_t_minus_Suc_0)
next
  case (Suc d)
  let ?n = "length flags"
  from Suc have i: "i < ?n - 1" by simp
  then have lt: "i < ?n" by simp
  have "uint_plus i (Suc 0) = i + 1" using i lt Suc.prems by (intro uint_plus_one) simp
  then have step: "one_sender_loop ?n i flags = one_sender_loop ?n (i + 1) (flags[i := 0])"
    using i lt Suc.prems by (subst one_sender_loop.simps) (simp add: size_t_minus_Suc_0)
  have "one_sender_loop (length (flags[i := 0])) (i + 1) (flags[i := 0])
          = Some (Inr (map (\<lambda>j. if i + 1 \<le> j \<and> j < length (flags[i := 0]) - 1 then 0
                                   else flags[i := 0] ! j)
                         [0 ..< length (flags[i := 0])]))"
    using Suc.hyps(2) Suc.prems i by (intro Suc.hyps(1)) simp_all
  moreover have "map (\<lambda>j. if i + 1 \<le> j \<and> j < ?n - 1 then 0 else flags[i := 0] ! j) [0 ..< ?n]
                   = map (\<lambda>j. if i \<le> j \<and> j < ?n - 1 then 0 else flags ! j) [0 ..< ?n]"
    using i by (intro map_cong) (auto simp: nth_list_update)
  ultimately show ?case using step by simp
qed

subsection \<open>The membership function\<close>

lemma membership_function_too_few:
  assumes "length (View.members v) < unat num_nodes"
  shows "membership_function sel md num_nodes v = Some (Inl Subgroup_provisioning_exception)"
  using assms by (simp add: membership_function_def Let_def)

lemma half_senders_flags:
  fixes n :: nat
  assumes "0 < n" "n \<le> 2 ^ 32"
  shows "half_senders_loop n 0 (replicate n 1)
           = Some (Inr (map (\<lambda>j. if j \<le> (n - 1) div 2 then 0 else 1) [0 ..< n]))"
proof -
  have "map (\<lambda>j. if 0 \<le> j \<and> j \<le> (n - 1) div 2 then 0 else replicate n (1::int) ! j) [0 ..< n]
          = map (\<lambda>j. if j \<le> (n - 1) div 2 then 0 else 1) [0 ..< n]"
    by (intro map_cong) auto
  then show ?thesis
    using half_senders_loop_result [of "replicate n 1" 0] assms by simp
qed

lemma one_sender_flags:
  fixes n :: nat
  assumes "0 < n" "n \<le> 2 ^ 32"
  shows "one_sender_loop n 0 (replicate n 1)
           = Some (Inr (map (\<lambda>j. if j < n - 1 then 0 else 1) [0 ..< n]))"
proof -
  have "map (\<lambda>j. if 0 \<le> j \<and> j < n - 1 then 0 else replicate n (1::int) ! j) [0 ..< n]
          = map (\<lambda>j. if j < n - 1 then 0 else 1) [0 ..< n]"
    by (intro map_cong) auto
  then show ?thesis
    using one_sender_loop_result [of "replicate n 1" 0] assms by simp
qed

lemma membership_function_enough:
  assumes "unat num_nodes \<le> length (View.members v)"
    and "View.members v \<noteq> []"
    and "length (View.members v) \<le> 2 ^ 32"
  shows "membership_function sel md num_nodes v
           = Some (Inr ([[\<lparr> mode = md, SubView.members = View.members v,
                              is_sender =
                                (if sel = 0 then replicate (length (View.members v)) 1
                                 else if sel = 1
                                   then map (\<lambda>j. if j \<le> (length (View.members v) - 1) div 2
                                                  then 0 else 1)
                                          [0 ..< length (View.members v)]
                                   else map (\<lambda>j. if j < length (View.members v) - 1
                                                  then 0 else 1)
                                          [0 ..< length (View.members v)]) \<rparr>]],
                        v\<lparr>next_unassigned_rank := int (length (View.members v))\<rparr>))"
proof -
  let ?n = "length (View.members v)"
  have n: "0 < ?n" "?n \<le> 2 ^ 32" using assms by simp_all
  show ?thesis
    using assms(1) half_senders_flags [OF n] one_sender_flags [OF n]
    by (simp add: membership_function_def make_subview_def Let_def)
qed

subsection \<open>The stability callback with four nodes and half of them sending\<close>

lemma half_of_four_nodes: "(1000 :: 32 word) * (4 div 2) = 2000"
proof -
  have "(4 :: 32 word) div 2 = 2" by (simp add: word_unat_eq_iff unat_div)
  then show ?thesis by simp
qed

lemma of_nat_eq_2000:
  "((of_nat (Suc n) :: 32 word) = 2000 \<or> 2000 \<le> n) \<longleftrightarrow> 2000 \<le> Suc n"
proof -
  have "(of_nat (Suc n) :: 32 word) = of_nat 2000 \<longleftrightarrow> Suc n mod 2 ^ 32 = 2000 mod 2 ^ 32"
    by (simp only: word_of_nat_eq_iff take_bit_eq_mod) simp
  then have e: "(of_nat (Suc n) :: 32 word) = 2000 \<longleftrightarrow> Suc n mod 4294967296 = 2000" by simp
  have "Suc n mod 4294967296 \<le> Suc n" by (rule mod_less_eq_dividend)
  then show ?thesis unfolding e by (cases "Suc n < 4294967296") auto
qed

lemma stability_callback_1_4_1000:
  "stability_callback 1 4 1000 my_id sender_id now s =
    (let s1 = s\<lparr>num_delivered := num_delivered s + 1\<rparr> in
     case (if sender_id = my_id then
             if unat (time_index s1) < length (end_times s1)
             then Inr (s1\<lparr>end_times := (end_times s1)[unat (time_index s1) := now],
                          time_index := time_index s1 + 1\<rparr>)
             else Inl Undefined_behaviour
           else Inr s1) of
       Inl e \<Rightarrow> Inl e
     | Inr s2 \<Rightarrow> Inr (if num_delivered s2 = 2000 then s2\<lparr>is_done := True\<rparr> else s2))"
  unfolding stability_callback_def half_of_four_nodes
  by (simp add: Let_def split: sum.splits)

lemma stability_callback_half_senders:
  assumes "num_delivered s = of_nat n"
    and "time_index s = of_nat c"
    and "length (end_times s) = 1000"
    and "sender_id = my_id \<longrightarrow> c < 1000"
    and "is_done s = (2000 \<le> n)"
  shows "\<exists>s'. stability_callback 1 4 1000 my_id sender_id now s = Inr s'
           \<and> num_delivered s' = of_nat (Suc n)
           \<and> time_index s' = of_nat (if sender_id = my_id then Suc c else c)
           \<and> length (end_times s') = 1000
           \<and> is_done s' = (2000 \<le> Suc n)"
proof -
  have u: "sender_id = my_id \<Longrightarrow> unat (of_nat c :: 32 word) < 1000"
    using assms(4) by (simp add: unat_of_nat)
  have d: "((1 + of_nat n :: 32 word) = 2000 \<or> 2000 \<le> n) \<longleftrightarrow> 2000 \<le> Suc n"
    using of_nat_eq_2000 [of n] by (simp add: add.commute)
  show ?thesis
    using assms u d
    by (auto simp add: stability_callback_1_4_1000 Let_def add.commute)
qed

lemma deliveries_half_senders:
  assumes "num_delivered s = of_nat n"
    and "time_index s = of_nat c"
    and "length (end_times s) = 1000"
    and "c + length (filter (\<lambda>d. fst d = my_id) ds) \<le> 1000"
    and "is_done s = (2000 \<le> n)"
  shows "\<exists>s'. deliveries 1 4 1000 my_id ds s = Inr s' \<and> is_done s' = (2000 \<le> n + length ds)"
  using assms
proof (induction ds arbitrary: s n c)
  case Nil
  then show ?case by simp
next
  case (Cons d ds)
  obtain sender_id now where d: "d = (sender_id, now)" by (cases d)
  have own: "sender_id = my_id \<longrightarrow> c < 1000" using Cons.prems(4) d by auto
  from stability_callback_half_senders [OF Cons.prems(1-3) own Cons.prems(5)]
  obtain s1 where s1: "stability_callback 1 4 1000 my_id sender_id now s = Inr s1"
    "num_delivered s1 = of_nat (Suc n)"
    "time_index s1 = of_nat (if sender_id = my_id then Suc c else c)"
    "length (end_times s1) = 1000" "is_done s1 = (2000 \<le> Suc n)"
    by blast
  have rest: "(if sender_id = my_id then Suc c else c) + length (filter (\<lambda>d. fst d = my_id) ds) \<le> 1000"
    using Cons.prems(4) d by auto
  from Cons.IH [OF s1(2) s1(3) s1(4) rest s1(5)]
  show ?case using s1(1) d by simp
qed

text \<open>
  Claim C8. With four nodes and \<open>num_senders_selector = 1\<close>, the membership function
  puts the four members of the view in one shard and gives the members of rank 0 and 1
  the sender flag 0 and the members of rank 2 and 3 the flag 1. The stability callback,
  called once for each delivered message, has set \<open>done\<close> after \<open>n\<close> deliveries exactly
  when \<open>n\<close> is at least 2000, that is 1000 messages times 4 / 2 senders: it sets \<open>done\<close> in
  the call that makes the count 2000. (The callback stores the time of each delivery of
  the node's own messages in \<open>end_times\<close>, which has 1000 entries; the node sends 1000
  messages, so at most 1000 deliveries have the node's own id as sender.)
\<close>

theorem latency_test_half_senders:
  "membership_function 1 md 4 \<lparr>View.members = [a, b, c, d], next_unassigned_rank = r\<rparr>
     = Some (Inr ([[\<lparr> mode = md, SubView.members = [a, b, c, d], is_sender = [0, 0, 1, 1] \<rparr>]],
                  \<lparr>View.members = [a, b, c, d], next_unassigned_rank = 4\<rparr>))
   \<and> (length (filter (\<lambda>d. fst d = my_id) ds) \<le> 1000 \<longrightarrow>
        (\<exists>s. deliveries 1 4 1000 my_id ds (initial_callback_state 1000) = Inr s
              \<and> is_done s = (2000 \<le> length ds)))"
proof -
  have layout:
    "membership_function 1 md 4 \<lparr>View.members = [a, b, c, d], next_unassigned_rank = r\<rparr>
       = Some (Inr ([[\<lparr> mode = md, SubView.members = [a, b, c, d], is_sender = [0, 0, 1, 1] \<rparr>]],
                    \<lparr>View.members = [a, b, c, d], next_unassigned_rank = 4\<rparr>))"
    using membership_function_enough
            [where v = "\<lparr>View.members = [a, b, c, d], next_unassigned_rank = r\<rparr>"
               and num_nodes = 4 and sel = 1 and md = md]
    by simp
  have "\<exists>s. deliveries 1 4 1000 my_id ds (initial_callback_state 1000) = Inr s
              \<and> is_done s = (2000 \<le> length ds)"
    if own: "length (filter (\<lambda>d. fst d = my_id) ds) \<le> 1000"
  proof -
    have "num_delivered (initial_callback_state 1000) = of_nat 0"
      "time_index (initial_callback_state 1000) = of_nat 0"
      "is_done (initial_callback_state 1000) = (2000 \<le> (0::nat))"
      by (simp_all only: initial_callback_state_def callback_state.select_convs) simp_all
    moreover have "length (end_times (initial_callback_state 1000)) = 1000"
      by (simp only: initial_callback_state_def callback_state.select_convs length_replicate)
        simp
    ultimately show ?thesis
      using deliveries_half_senders [of "initial_callback_state 1000" 0 0 my_id ds] own
      by simp
  qed
  with layout show ?thesis by blast
qed

theorem latency_test_half_senders_witness:
  "length (filter (\<lambda>d. fst d = (3 :: 32 word)) [(2 :: 32 word, 5 :: 64 word), (3, 6), (2, 7)]) \<le> 1000
   \<and> (\<exists>s. deliveries 1 4 1000 3 [(2, 5), (3, 6), (2, 7)] (initial_callback_state 1000) = Inr s
            \<and> \<not> is_done s)"
  using latency_test_half_senders
          [where my_id = 3 and ds = "[(2 :: 32 word, 5 :: 64 word), (3, 6), (2, 7)]"]
  by simp

text \<open>
  Claim C9. For a view with fewer members than \<open>num_nodes\<close> the membership function throws
  \<open>subgroup_provisioning_exception\<close>. For a view with at least \<open>num_nodes\<close> members it
  returns a layout with exactly one subgroup, which has exactly one shard, whose members
  are all the members of the view, in the requested delivery mode and with one sender
  flag for each member. (A view has at least one member, the node itself, and at most
  \<open>2\<^sup>3\<^sup>2\<close>, since node ids are 32-bit values.)
\<close>

theorem membership_function_layout:
  "(length (View.members v) < unat num_nodes \<longrightarrow>
      membership_function sel md num_nodes v = Some (Inl Subgroup_provisioning_exception))
   \<and> (unat num_nodes \<le> length (View.members v) \<and> View.members v \<noteq> []
        \<and> length (View.members v) \<le> 2 ^ 32 \<longrightarrow>
      (\<exists>flags. membership_function sel md num_nodes v
                 = Some (Inr ([[\<lparr> mode = md, SubView.members = View.members v,
                                    is_sender = flags \<rparr>]],
                              v\<lparr>next_unassigned_rank := int (length (View.members v))\<rparr>))
               \<and> length flags = length (View.members v)))"
proof (intro conjI impI)
  assume "length (View.members v) < unat num_nodes"
  then show "membership_function sel md num_nodes v = Some (Inl Subgroup_provisioning_exception)"
    by (rule membership_function_too_few)
next
  assume "unat num_nodes \<le> length (View.members v) \<and> View.members v \<noteq> []
            \<and> length (View.members v) \<le> 2 ^ 32"
  then have "unat num_nodes \<le> length (View.members v)" "View.members v \<noteq> []"
    "length (View.members v) \<le> 2 ^ 32" by simp_all
  from membership_function_enough [OF this, of sel md]
  show "\<exists>flags. membership_function sel md num_nodes v
                 = Some (Inr ([[\<lparr> mode = md, SubView.members = View.members v,
                                    is_sender = flags \<rparr>]],
                              v\<lparr>next_unassigned_rank := int (length (View.members v))\<rparr>))
               \<and> length flags = length (View.members v)"
    by (cases "sel = 0"; cases "sel = 1") simp_all
qed

theorem membership_function_layout_witness:
  "length (View.members \<lparr>View.members = [1, 2, 3], next_unassigned_rank = 0\<rparr>) < unat (4 :: 32 word)
   \<and> membership_function 0 ORDERED 4 \<lparr>View.members = [1, 2, 3], next_unassigned_rank = 0\<rparr>
        = Some (Inl Subgroup_provisioning_exception)
   \<and> unat (4 :: 32 word) \<le> length (View.members \<lparr>View.members = [1, 2, 3, 4], next_unassigned_rank = 0\<rparr>)
   \<and> (\<exists>flags. membership_function 2 ORDERED 4 \<lparr>View.members = [1, 2, 3, 4], next_unassigned_rank = 0\<rparr>
         = Some (Inr ([[\<lparr> mode = ORDERED, SubView.members = [1, 2, 3, 4], is_sender = flags \<rparr>]],
                      \<lparr>View.members = [1, 2, 3, 4], next_unassigned_rank = 4\<rparr>))
         \<and> length flags = length [1, 2, 3, 4 :: 32 word])"
  using
    membership_function_layout
      [where v = "\<lparr>View.members = [1, 2, 3], next_unassigned_rank = 0\<rparr>"
         and num_nodes = 4 and sel = 0 and md = ORDERED]
    membership_function_layout
      [where v = "\<lparr>View.members = [1, 2, 3, 4], next_unassigned_rank = 0\<rparr>"
         and num_nodes = 4 and sel = 2 and md = ORDERED]
  by simp

end
